theory Spec2Isabelle
  imports Complex_Main "HOL-Library.Sublist" "HOL-Library.Product_Lexorder"
begin

section \<open>Detections\<close>

text \<open>
  The interface \<open>Prediction\<close> of \<open>App.tsx\<close> and \<open>ImageViewer.tsx\<close>: a bounding
  box \<open>(x1, y1, x2, y2)\<close>, a confidence, and the class. The numbers of the box and the
  confidence are reals. A detection of the pipeline has the same fields.
\<close>

record Prediction =
  bbox :: "real \<times> real \<times> real \<times> real"
  confidence :: real
  class_id :: int
  class_name :: string

type_synonym Detection = Prediction

text \<open>The decimal digits of a number, as a template literal prints it.\<close>

fun string_of_nat :: "nat \<Rightarrow> string" where
  "string_of_nat n =
     (if n < 10 then [char_of (48 + n)]
      else string_of_nat (n div 10) @ [char_of (48 + n mod 10)])"

declare string_of_nat.simps [simp del]

section \<open>The detection pipeline\<close>

text \<open>
  The server that classifies, tiles, merges and assembles is not among the sources; the
  definitions of this section follow sections 3 and 4 of the specification.
\<close>

subsection \<open>Images, windows and the size classifier\<close>

text \<open>
  Modelled from the spec: the \<open>Image\<close> of section 3, which the absent server decodes.
  Its pixel buffer is opaque and left out.
\<close>

record Image =
  width :: int
  height :: int
  original_format :: "string option"

text \<open>
  Modelled from the spec: the \<open>Window\<close> of section 3, an axis-aligned rectangle that
  the absent tiler produces.
\<close>

record Window =
  origin_x :: int
  origin_y :: int
  width :: int
  height :: int

text \<open>
  Modelled from the spec: the pixels a window of the absent tiler spans, the rectangle
  from its origin, of its width and height (section 3).
\<close>

definition pixels :: "Window \<Rightarrow> (int \<times> int) set" where
  "pixels w = {origin_x w ..< origin_x w + width w} \<times> {origin_y w ..< origin_y w + height w}"

text \<open>
  Modelled from the spec: the two outcomes of the absent size classifier (section 4.1).
\<close>

datatype Method = Direct | Tiled

text \<open>
  Modelled from the spec: the absent \<open>classify\<close> of section 4.1, \<open>Direct\<close> when both
  dimensions are at most the window size and \<open>Tiled\<close> otherwise.
\<close>

definition classify :: "Image \<Rightarrow> int \<Rightarrow> Method" where
  "classify img window_size =
     (if Image.width img \<le> window_size \<and> Image.height img \<le> window_size then Direct
      else Tiled)"

text \<open>
  Modelled from the spec: the name under which the absent assembler records the
  classification, one of \<open>direct\<close> and \<open>sliding_window\<close> (section 6).
\<close>

fun method_name :: "Method \<Rightarrow> string" where
  "method_name Direct = ''direct''"
| "method_name Tiled = ''sliding_window''"

subsection \<open>The tiler\<close>

text \<open>Modelled from the spec: the fatal conditions of section 7 that the absent pipeline reports.\<close>

datatype PipelineError = ConfigError | InferenceError

text \<open>
  Modelled from the spec: the walk of the absent tiler along one axis (section 4.2).
  Origins advance by the stride from the given one while the next window still ends
  inside the axis; the first origin whose window would reach or pass the end is pulled
  back so that the window ends exactly there, and the walk is over.
\<close>

function origins_from :: "int \<Rightarrow> int \<Rightarrow> int \<Rightarrow> int \<Rightarrow> int list" where
  "origins_from extent window_size stride origin =
     (if stride \<le> 0 then []
      else if extent \<le> origin + window_size then [extent - window_size]
      else origin # origins_from extent window_size stride (origin + stride))"
  by pat_completeness auto
termination
  by (relation "measure (\<lambda>(extent, window_size, stride, origin). nat (extent - window_size - origin))")
     auto

declare origins_from.simps [simp del]

text \<open>
  Modelled from the spec: the origins of the absent tiler along one axis. Windows lie
  inside the image (section 3), so an axis no longer than the window has the single
  origin 0, where the window spans the axis.
\<close>

definition axis_origins :: "int \<Rightarrow> int \<Rightarrow> int \<Rightarrow> int list" where
  "axis_origins extent window_size stride =
     (if extent \<le> window_size then [0] else origins_from extent window_size stride 0)"

text \<open>
  Modelled from the spec: the windows the absent tiler lays over an image that needs
  tiling (section 4.2), row by row: one for every pair of an origin along the height and
  an origin along the width, each of the window size cut to the image.
\<close>

definition grid :: "Image \<Rightarrow> int \<Rightarrow> int \<Rightarrow> Window list" where
  "grid img window_size stride =
     concat (map (\<lambda>y. map (\<lambda>x.
        \<lparr>origin_x = x, origin_y = y,
         width = min window_size (Image.width img),
         height = min window_size (Image.height img)\<rparr>)
        (axis_origins (Image.width img) window_size stride))
      (axis_origins (Image.height img) window_size stride))"

text \<open>
  Modelled from the spec: the absent \<open>tile\<close> of section 4.2. An overlap outside
  \<open>0 \<le> overlap < window_size\<close> is a \<open>ConfigError\<close>; the stride is the window size
  less the overlap; a \<open>Direct\<close> image yields the one window that is the image, any other
  image the grid.
\<close>

definition tile :: "Image \<Rightarrow> int \<Rightarrow> int \<Rightarrow> PipelineError + Window list" where
  "tile img window_size overlap =
     (if window_size \<le> 0 \<or> overlap < 0 \<or> window_size \<le> overlap then Inl ConfigError
      else
        (let stride = window_size - overlap
         in case classify img window_size of
           Direct \<Rightarrow>
             Inr [\<lparr>origin_x = 0, origin_y = 0,
                   width = Image.width img, height = Image.height img\<rparr>]
         | Tiled \<Rightarrow> Inr (grid img window_size stride)))"

subsection \<open>The cross-tile merger\<close>

text \<open>
  Modelled from the spec: the area of a bounding box, as the absent merger needs it for
  the IoU of section 4.5.
\<close>

definition area :: "real \<times> real \<times> real \<times> real \<Rightarrow> real" where
  "area b = (case b of (x1, y1, x2, y2) \<Rightarrow> (x2 - x1) * (y2 - y1))"

text \<open>
  Modelled from the spec: the area of the intersection of two axis-aligned bounding
  boxes, as the absent merger needs it for the IoU of section 4.5; it is 0 when the boxes
  do not meet.
\<close>

definition intersection :: "real \<times> real \<times> real \<times> real \<Rightarrow> real \<times> real \<times> real \<times> real \<Rightarrow> real" where
  "intersection a b =
     (case a of (ax1, ay1, ax2, ay2) \<Rightarrow> case b of (bx1, by1, bx2, by2) \<Rightarrow>
        max 0 (min ax2 bx2 - max ax1 bx1) * max 0 (min ay2 by2 - max ay1 by1))"

text \<open>
  Modelled from the spec: the intersection over union of section 4.5 of the absent
  merger, the area of the intersection by the area of the union, and 0 when the union has
  no area.
\<close>

definition iou :: "Detection \<Rightarrow> Detection \<Rightarrow> real" where
  "iou a b =
     (let inter = intersection (bbox a) (bbox b);
          union = area (bbox a) + area (bbox b) - inter
      in if union = 0 then 0 else inter / union)"

text \<open>
  Modelled from the spec: step 3 of the absent merger on the sorted detections of one
  class. The first remaining detection is kept, and every other remaining one whose IoU
  with it exceeds the threshold is discarded.
\<close>

fun nms :: "real \<Rightarrow> Detection list \<Rightarrow> Detection list" where
  "nms iou_threshold [] = []"
| "nms iou_threshold (d # ds) =
     d # nms iou_threshold (filter (\<lambda>e. \<not> iou_threshold < iou d e) ds)"

text \<open>
  Modelled from the spec: the order of step 2 of the absent merger, by confidence
  descending, ties broken by \<open>x1\<close> ascending and then \<open>y1\<close>.
\<close>

definition sort_key_of :: "Detection \<Rightarrow> real \<times> real \<times> real" where
  "sort_key_of d = (case bbox d of (x1, y1, x2, y2) \<Rightarrow> (- confidence d, x1, y1))"

text \<open>
  Modelled from the spec: steps 2 to 4 of the absent merger for one class: the
  detections of the class, sorted and reduced by \<open>nms\<close>.
\<close>

definition kept_of_class :: "Detection list \<Rightarrow> real \<Rightarrow> int \<Rightarrow> Detection list" where
  "kept_of_class detections iou_threshold c =
     nms iou_threshold (sort_key sort_key_of (filter (\<lambda>d. class_id d = c) detections))"

text \<open>
  Modelled from the spec: the absent \<open>merge\<close> of section 4.5. The detections are
  partitioned by class and the kept detections of the classes are concatenated, the
  classes in ascending order of \<open>class_id\<close>.
\<close>

definition merge :: "Detection list \<Rightarrow> real \<Rightarrow> Detection list" where
  "merge detections iou_threshold =
     concat (map (kept_of_class detections iou_threshold)
                 (sort (remdups (map class_id detections))))"

subsection \<open>The result assembler\<close>

text \<open>
  Modelled from the spec: the provenance record \<open>processing_info\<close> of section 4.6,
  which the absent assembler fills in.
\<close>

record Provenance =
  original_format :: "string option"  "method" :: string  window_size :: string

text \<open>
  Modelled from the spec: the \<open>Result\<close> of section 4.6, which the absent assembler
  builds.
\<close>

record Result =
  predictions :: "Detection list"
  image_width :: int
  image_height :: int
  total_detections :: int
  processing_info :: Provenance

text \<open>
  Modelled from the spec: the absent \<open>assemble\<close> of section 4.6. The window size
  \<open>ws\<close> is recorded as the string \<open>WxH\<close> of section 6.
\<close>

definition assemble :: "Image \<Rightarrow> Detection list \<Rightarrow> Method \<Rightarrow> int \<Rightarrow> Result" where
  "assemble img detection_set m ws =
     \<lparr>predictions = detection_set,
      image_width = Image.width img,
      image_height = Image.height img,
      total_detections = int (length detection_set),
      processing_info =
        \<lparr>original_format = Image.original_format img,
         method = method_name m,
         window_size = string_of_nat (nat ws) @ ''x'' @ string_of_nat (nat ws)\<rparr>\<rparr>"

section \<open>The web client: \<open>app/src/App.tsx\<close>\<close>

subsection \<open>The result as it crosses the boundary\<close>

text \<open>
  The analysis result is what \<open>analysisResponse.json()\<close> resolves to. The interfaces
  \<open>AnalysisResult\<close> and \<open>ProcessingInfo\<close> of \<open>App.tsx\<close> are erased when the
  program runs, and the handler stores the parsed body without looking at it: the result
  is a JSON value, whatever its properties.
\<close>

datatype json_value =
    JNull
  | JBool bool
  | JNumber real
  | JString string
  | JArray "json_value list"
  | JObject "(string \<times> json_value) list"





subsection \<open>Component state and the outside world\<close>

text \<open>The browser's \<open>File\<close>: the two properties the handler reads.\<close>

record File =
  name :: string
  type :: string

text \<open>The \<open>useState\<close> cells of \<open>App\<close>.\<close>

record app_state =
  selectedFile :: "File option"
  analysisResult :: "json_value option"
  isLoading :: bool
  error :: "string option"
  previewUrl :: "string option"
  uploadProgress :: int
  isUploading :: bool

text \<open>
  A thrown value is an \<open>Error\<close> object with its message, or some other value. A promise
  that rejects and a call that throws are \<open>Inl\<close> of it.
\<close>

datatype exn = Error string | Thrown

text \<open>
  A parsed JSON body: its \<open>detail\<close> property when there is one, and the body itself,
  read at its declared type for the upload location and kept as the JSON value it is for
  the analysis.
\<close>

record 'a Body =
  detail :: "string option"
  content :: 'a

text \<open>A \<open>fetch\<close> response: the \<open>ok\<close> flag and what \<open>json()\<close> resolves to.\<close>

record 'a Response =
  ok :: bool
  json :: "exn + 'a Body"

record PresignedUrl =
  presigned_url :: string
  s3_key :: string

text \<open>How the \<open>XMLHttpRequest\<close> ends: \<open>load\<close> with a status, \<open>error\<close> or \<open>timeout\<close>.\<close>

datatype xhr_outcome = xhr_load nat string | xhr_error | xhr_timeout

text \<open>
  What the network answers during one run of the handler. The \<open>progress\<close> and
  \<open>upload.load\<close> listeners only call \<open>setUploadProgress\<close> while the upload is pending;
  they are left out.
\<close>

record env =
  presignedResponse :: "exn + PresignedUrl Response"
  upload :: xhr_outcome
  analysisResponse :: "exn + json_value Response"

text \<open>
  The observable actions of the handler, in program order: the state setters and the two
  kinds of network request. A \<open>fetch\<close> is a POST with a JSON object as its body, given
  as its list of properties; \<open>xhr_send\<close> is the PUT of the file with its
  \<open>Content-Type\<close> header.
\<close>

datatype effect =
    setIsLoading bool
  | setIsUploading bool
  | setUploadProgress int
  | setError "string option"
  | setAnalysisResult "json_value option"
  | fetch string "(string \<times> string) list"
  | xhr_send string string File

subsection \<open>\<open>handleAnalyze\<close>\<close>

text \<open>\<open>x || d\<close> on an optional string: \<open>undefined\<close> and the empty string are falsy.\<close>

definition or_default :: "string option \<Rightarrow> string \<Rightarrow> string" where
  "or_default x d = (case x of None \<Rightarrow> d | Some s \<Rightarrow> if s = [] then d else s)"

text \<open>\<open>selectedFile.type || 'image/jpeg'\<close>\<close>

definition content_type :: "File \<Rightarrow> string" where
  "content_type f = (if type f = [] then ''image/jpeg'' else type f)"

text \<open>
  The body of the \<open>try\<close> block: the actions performed, and the value thrown if the
  block is left by an exception.
\<close>

definition try_block :: "env \<Rightarrow> File \<Rightarrow> effect list \<times> exn option" where
  "try_block e f =
    (let fx1 = [setUploadProgress 5,
                fetch ''/generate-presigned-url''
                  [(''filename'', name f), (''content_type'', content_type f)]]
     in case presignedResponse e of
       Inl x \<Rightarrow> (fx1, Some x)
     | Inr r \<Rightarrow>
        if \<not> ok r then
          (case json r of
             Inl x \<Rightarrow> (fx1, Some x)
           | Inr errorData \<Rightarrow>
               (fx1, Some (Error (or_default (detail errorData) ''Failed to get upload URL''))))
        else
          (case json r of
             Inl x \<Rightarrow> (fx1, Some x)
           | Inr b \<Rightarrow>
              (let fx2 = fx1 @ [setUploadProgress 10,
                                xhr_send (presigned_url (content b)) (content_type f) f]
               in case upload e of
                 xhr_load status statusText \<Rightarrow>
                   if status = 200 then
                     (let fx3 = fx2 @ [setIsUploading False, setUploadProgress 75,
                                       fetch ''/analyze-s3'' [(''s3_key'', s3_key (content b))]]
                      in case analysisResponse e of
                        Inl x \<Rightarrow> (fx3, Some x)
                      | Inr r2 \<Rightarrow>
                         if \<not> ok r2 then
                           (case json r2 of
                              Inl x \<Rightarrow> (fx3, Some x)
                            | Inr errorData \<Rightarrow>
                                (fx3, Some (Error (or_default (detail errorData) ''Analysis failed''))))
                         else
                           (case json r2 of
                              Inl x \<Rightarrow> (fx3, Some x)
                            | Inr result \<Rightarrow>
                                (fx3 @ [setUploadProgress 100,
                                        setAnalysisResult (Some (content result))], None)))
                   else
                     (fx2, Some (Error (''S3 upload failed: '' @ string_of_nat status
                                        @ '' '' @ statusText)))
               | xhr_error \<Rightarrow> (fx2, Some (Error ''S3 upload network error''))
               | xhr_timeout \<Rightarrow> (fx2, Some (Error ''S3 upload timeout'')))))"

text \<open>\<open>err instanceof Error ? err.message : 'An unknown error occurred'\<close>\<close>

definition message_of :: "exn \<Rightarrow> string" where
  "message_of x = (case x of Error m \<Rightarrow> m | Thrown \<Rightarrow> ''An unknown error occurred'')"

definition handleAnalyze :: "env \<Rightarrow> app_state \<Rightarrow> effect list" where
  "handleAnalyze e s =
    (case selectedFile s of
       None \<Rightarrow> [setError (Some ''Please select an image first'')]
     | Some f \<Rightarrow>
         [setIsLoading True, setIsUploading True, setUploadProgress 0, setError None]
         @ (case try_block e f of
              (fx, None) \<Rightarrow> fx
            | (fx, Some x) \<Rightarrow> fx @ [setError (Some (message_of x))])
         @ [setIsLoading False, setIsUploading False, setUploadProgress 0])"

text \<open>What each action does to the component state; a request leaves it alone.\<close>

fun perform :: "effect \<Rightarrow> app_state \<Rightarrow> app_state" where
  "perform (setIsLoading b) s = s\<lparr>isLoading := b\<rparr>"
| "perform (setIsUploading b) s = s\<lparr>isUploading := b\<rparr>"
| "perform (setUploadProgress n) s = s\<lparr>uploadProgress := n\<rparr>"
| "perform (setError m) s = s\<lparr>error := m\<rparr>"
| "perform (setAnalysisResult r) s = s\<lparr>analysisResult := r\<rparr>"
| "perform (fetch url body) s = s"
| "perform (xhr_send url ct f) s = s"

text \<open>The state once the handler has returned.\<close>

definition after_handleAnalyze :: "env \<Rightarrow> app_state \<Rightarrow> app_state" where
  "after_handleAnalyze e s = fold perform (handleAnalyze e s) s"

text \<open>The three interactions with the outside, and the one an action belongs to.\<close>

datatype interaction = RequestLocation | Upload | Analyze

fun interaction_of :: "effect \<Rightarrow> interaction option" where
  "interaction_of (fetch url body) =
     (if url = ''/generate-presigned-url'' then Some RequestLocation
      else if url = ''/analyze-s3'' then Some Analyze else None)"
| "interaction_of (xhr_send url ct f) = Some Upload"
| "interaction_of _ = None"

definition is_request :: "effect \<Rightarrow> bool" where
  "is_request a = (interaction_of a \<noteq> None)"

definition requests :: "effect list \<Rightarrow> effect list" where
  "requests fx = filter is_request fx"

text \<open>The three requests of a run, as the handler builds them.\<close>

definition location_request :: "File \<Rightarrow> effect" where
  "location_request f =
     fetch ''/generate-presigned-url'' [(''filename'', name f), (''content_type'', content_type f)]"

definition upload_request :: "PresignedUrl \<Rightarrow> File \<Rightarrow> effect" where
  "upload_request p f = xhr_send (presigned_url p) (content_type f) f"

definition analysis_request :: "PresignedUrl \<Rightarrow> effect" where
  "analysis_request p = fetch ''/analyze-s3'' [(''s3_key'', s3_key p)]"

subsection \<open>Predicates on a run\<close>

text \<open>
  A step fails when its request is rejected, is answered with a status that is not ok, or
  the answer cannot be read; for the upload, when it does not end with status 200.
\<close>

definition location_fails :: "env \<Rightarrow> bool" where
  "location_fails e =
     (case presignedResponse e of Inl x \<Rightarrow> True | Inr r \<Rightarrow> \<not> ok r \<or> isl (json r))"

definition upload_fails :: "env \<Rightarrow> bool" where
  "upload_fails e =
     (case upload e of xhr_load status statusText \<Rightarrow> status \<noteq> 200 | xhr_error \<Rightarrow> True
      | xhr_timeout \<Rightarrow> True)"

definition analysis_fails :: "env \<Rightarrow> bool" where
  "analysis_fails e =
     (case analysisResponse e of Inl x \<Rightarrow> True | Inr r \<Rightarrow> \<not> ok r \<or> isl (json r))"

text \<open>The actions that surface an error message, store a result, and the property
  names a request body carries.\<close>

fun reports_error :: "effect \<Rightarrow> bool" where
  "reports_error (setError (Some m)) = True"
| "reports_error _ = False"

fun stores_result :: "effect \<Rightarrow> bool" where
  "stores_result (setAnalysisResult r) = True"
| "stores_result _ = False"

fun request_keys :: "effect \<Rightarrow> string list" where
  "request_keys (fetch url body) = map fst body"
| "request_keys _ = []"

text \<open>The names of the four parameters of the pipeline configuration.\<close>

definition config_keys :: "string list" where
  "config_keys = [''window_size'', ''overlap'', ''iou_threshold'', ''confidence_floor'']"

section \<open>The image viewer: \<open>ImageViewer.tsx\<close>\<close>

subsection \<open>Numbers\<close>

text \<open>
  A JavaScript number is a real, one of the two infinities, or \<open>NaN\<close>. Rounding is not
  modelled. Division by zero is written out: a zero divisor is the positive zero, as
  \<open>Math.sqrt\<close> and \<open>parseFloat\<close> of its printed form give it.
\<close>

datatype number = Num real | Infinity | NegInfinity | NaN

fun sign :: "number \<Rightarrow> int" where
  "sign (Num r) = (if r > 0 then 1 else if r < 0 then - 1 else 0)"
| "sign Infinity = 1"
| "sign NegInfinity = - 1"
| "sign NaN = 0"

fun times_number :: "number \<Rightarrow> number \<Rightarrow> number" where
  "times_number NaN y = NaN"
| "times_number x NaN = NaN"
| "times_number (Num a) (Num b) = Num (a * b)"
| "times_number x y =
     (if sign x * sign y = 0 then NaN
      else if sign x * sign y > 0 then Infinity else NegInfinity)"

fun divide_number :: "number \<Rightarrow> number \<Rightarrow> number" where
  "divide_number NaN y = NaN"
| "divide_number x NaN = NaN"
| "divide_number (Num a) (Num b) =
     (if b \<noteq> 0 then Num (a / b)
      else if a = 0 then NaN
      else if a > 0 then Infinity else NegInfinity)"
| "divide_number (Num a) y = Num 0"
| "divide_number x (Num b) =
     (if (0 \<le> b) = (sign x > 0) then Infinity else NegInfinity)"
| "divide_number x y = NaN"

text \<open>The order of numbers other than \<open>NaN\<close>.\<close>

fun less_eq_number :: "number \<Rightarrow> number \<Rightarrow> bool" where
  "less_eq_number (Num a) (Num b) = (a \<le> b)"
| "less_eq_number NegInfinity y = True"
| "less_eq_number x Infinity = True"
| "less_eq_number x y = False"

text \<open>\<open>Math.min\<close> and \<open>Math.max\<close> of two numbers: \<open>NaN\<close> when an argument is.\<close>

fun Math_min :: "number \<Rightarrow> number \<Rightarrow> number" where
  "Math_min NaN y = NaN"
| "Math_min x NaN = NaN"
| "Math_min x y = (if less_eq_number x y then x else y)"

fun Math_max :: "number \<Rightarrow> number \<Rightarrow> number" where
  "Math_max NaN y = NaN"
| "Math_max x NaN = NaN"
| "Math_max x y = (if less_eq_number x y then y else x)"

subsection \<open>Zooming\<close>

text \<open>
  The state the zoom operations read and write: the \<open>scale\<close> cell and the two
  \<open>dataset\<close> entries of the container, kept as the numbers their strings print. The
  pan position, which the operations also set, does not enter the scale and is left out.
\<close>

record viewer_state =
  scale :: number
  initialPinchDistance :: "number option"
  initialScale :: "number option"

definition initial_view :: viewer_state where
  "initial_view = \<lparr>scale = Num (1 / 2), initialPinchDistance = None, initialScale = None\<rparr>"

definition zoomIn :: "viewer_state \<Rightarrow> viewer_state" where
  "zoomIn s = s\<lparr>scale := Math_min (times_number (scale s) (Num (3 / 2))) (Num 8)\<rparr>"

definition zoomOut :: "viewer_state \<Rightarrow> viewer_state" where
  "zoomOut s = s\<lparr>scale := Math_max (divide_number (scale s) (Num (3 / 2))) (Num (1 / 10))\<rparr>"

definition handleWheel :: "real \<Rightarrow> viewer_state \<Rightarrow> viewer_state" where
  "handleWheel deltaY s =
     (let delta = (if deltaY > 0 then Num (9 / 10) else Num (11 / 10));
          newScale = Math_min (Math_max (times_number (scale s) delta) (Num (1 / 10))) (Num 8)
      in s\<lparr>scale := newScale\<rparr>)"

text \<open>
  \<open>handleTouchZoom\<close> on the list of touches of the event, each with its \<open>clientX\<close>
  and \<open>clientY\<close>. A stored distance is a non-empty string, hence truthy, whatever its
  value.
\<close>

definition handleTouchZoom :: "(real \<times> real) list \<Rightarrow> viewer_state \<Rightarrow> viewer_state" where
  "handleTouchZoom touches s =
     (case touches of
        [touch1, touch2] \<Rightarrow>
          (let distance = Num (sqrt ((fst touch2 - fst touch1)\<^sup>2 + (snd touch2 - snd touch1)\<^sup>2))
           in case initialPinchDistance s of
                None \<Rightarrow> s\<lparr>initialPinchDistance := Some distance, initialScale := Some (scale s)\<rparr>
              | Some initialDistance \<Rightarrow>
                  (let initialScale = (case initialScale s of None \<Rightarrow> Num 1 | Some v \<Rightarrow> v);
                       scaleChange = divide_number distance initialDistance;
                       newScale = Math_min (Math_max (times_number initialScale scaleChange)
                                                     (Num (1 / 10))) (Num 8)
                   in s\<lparr>scale := newScale\<rparr>))
      | _ \<Rightarrow> s)"

definition handleTouchZoomEnd :: "viewer_state \<Rightarrow> viewer_state" where
  "handleTouchZoomEnd s = s\<lparr>initialPinchDistance := None, initialScale := None\<rparr>"

text \<open>The scale lies in the closed interval from 0.1 to 8.\<close>

fun in_range :: "number \<Rightarrow> bool" where
  "in_range (Num r) = (1 / 10 \<le> r \<and> r \<le> 8)"
| "in_range _ = False"

section \<open>Example inputs\<close>

text \<open>
  A run with the values of the API documentation: a file is selected, the upload location
  is granted, the upload ends with status 200 and the analysis answers with a result.
\<close>

definition example_file :: File where
  "example_file = \<lparr>name = ''he_slide_image.jpg'', type = ''image/jpeg''\<rparr>"

text \<open>
  A response in the format the API documentation gives for both analysis endpoints, with
  its one prediction of the class \<open>mitotic_figure\<close>.
\<close>

definition documented_info :: json_value where
  "documented_info =
     JObject [(''original_size'', JString ''1024x768''), (''original_format'', JString ''JPG''),
              (''method'', JString ''sliding_window''), (''window_size'', JString ''640x640''),
              (''source'', JString ''s3'')]"

definition documented_response :: json_value where
  "documented_response =
     JObject [(''predictions'',
                 JArray [JObject [(''bbox'', JArray [JNumber 10, JNumber 10, JNumber 50, JNumber 50]),
                                  (''confidence'', JNumber (87 / 100)),
                                  (''class_id'', JNumber 0),
                                  (''class_name'', JString ''mitotic_figure'')]]),
              (''image'', JString ''data:image/png;base64,iVBORw0KGgo''),
              (''image_width'', JNumber 1024), (''image_height'', JNumber 768),
              (''total_detections'', JNumber 1),
              (''processing_info'', documented_info)]"

definition example_location :: PresignedUrl where
  "example_location =
     \<lparr>presigned_url = ''https://s3.amazonaws.com/bucket/uploads/uuid-filename.jpg'',
      s3_key = ''uploads/uuid-filename.jpg''\<rparr>"

definition example_env :: env where
  "example_env =
     \<lparr>presignedResponse = Inr \<lparr>ok = True, json = Inr \<lparr>detail = None, content = example_location\<rparr>\<rparr>,
      upload = xhr_load 200 ''OK'',
      analysisResponse = Inr \<lparr>ok = True, json = Inr \<lparr>detail = None, content = documented_response\<rparr>\<rparr>\<rparr>"

text \<open>The state of a freshly mounted component, and the state once a file is chosen.\<close>

definition initial_state :: app_state where
  "initial_state = \<lparr>selectedFile = None, analysisResult = None, isLoading = False,
     error = None, previewUrl = None, uploadProgress = 0, isUploading = False\<rparr>"

definition example_state :: app_state where
  "example_state = initial_state\<lparr>selectedFile := Some example_file,
      previewUrl := Some ''blob:preview''\<rparr>"

text \<open>
  The end-to-end scenario of section 8 of the specification: an image of 1280 by 1280
  pixels, tiled with windows of 640 at an overlap of 64. The windows the tiler lays over
  it, and the four origins the scenario names.
\<close>

definition example_image :: Image where
  "example_image = \<lparr>Image.width = 1280, height = 1280, original_format = Some ''PNG''\<rparr>"

definition window_at :: "int \<times> int \<Rightarrow> Window" where
  "window_at p = \<lparr>origin_x = fst p, origin_y = snd p, width = 640, height = 640\<rparr>"

definition example_origins :: "(int \<times> int) list" where
  "example_origins =
     [(0, 0), (576, 0), (640, 0), (0, 576), (576, 576), (640, 576),
      (0, 640), (576, 640), (640, 640)]"

definition scenario_origins :: "(int \<times> int) list" where
  "scenario_origins = [(0, 0), (576, 0), (0, 576), (576, 576)]"

text \<open>
  Two detections of one class that overlap with an IoU of 0.85, with confidences 0.9 and
  0.6, and a third of another class.
\<close>

definition weak_detection :: Detection where
  "weak_detection =
     \<lparr>bbox = (0, 0, 100, 85), confidence = 6 / 10, class_id = 0, class_name = ''mitotic_figure''\<rparr>"

definition strong_detection :: Detection where
  "strong_detection =
     \<lparr>bbox = (0, 0, 100, 100), confidence = 9 / 10, class_id = 0, class_name = ''mitotic_figure''\<rparr>"

definition other_detection :: Detection where
  "other_detection =
     \<lparr>bbox = (0, 0, 100, 100), confidence = 5 / 10, class_id = 1, class_name = ''other''\<rparr>"

definition example_detections :: "Detection list" where
  "example_detections = [weak_detection, strong_detection, other_detection]"

section \<open>Properties of the client\<close>

subsection \<open>The shapes a run of the \<open>try\<close> block can take\<close>

lemma try_block_cases:
  obtains
    (location_failed) x where
      "presignedResponse e = Inl x \<or> (\<exists>r. presignedResponse e = Inr r \<and> (\<not> ok r \<or> isl (json r)))"
      "try_block e f = ([setUploadProgress 5, location_request f], Some x)"
  | (upload_failed) r b x where
      "presignedResponse e = Inr r" "ok r" "json r = Inr b"
      "\<forall>t. upload e \<noteq> xhr_load 200 t"
      "try_block e f = ([setUploadProgress 5, location_request f, setUploadProgress 10,
                         upload_request (content b) f], Some x)"
  | (analysis_failed) r b t x where
      "presignedResponse e = Inr r" "ok r" "json r = Inr b" "upload e = xhr_load 200 t"
      "analysisResponse e = Inl x \<or> (\<exists>r2. analysisResponse e = Inr r2 \<and> (\<not> ok r2 \<or> isl (json r2)))"
      "try_block e f = ([setUploadProgress 5, location_request f, setUploadProgress 10,
                         upload_request (content b) f, setIsUploading False, setUploadProgress 75,
                         analysis_request (content b)], Some x)"
  | (succeeded) r b t r2 b2 where
      "presignedResponse e = Inr r" "ok r" "json r = Inr b" "upload e = xhr_load 200 t"
      "analysisResponse e = Inr r2" "ok r2" "json r2 = Inr b2"
      "try_block e f = ([setUploadProgress 5, location_request f, setUploadProgress 10,
                         upload_request (content b) f, setIsUploading False, setUploadProgress 75,
                         analysis_request (content b), setUploadProgress 100,
                         setAnalysisResult (Some (content b2))], None)"
proof -
  note defs = try_block_def Let_def location_request_def upload_request_def analysis_request_def
  show ?thesis
  proof (cases "presignedResponse e")
    case (Inl x)
    then have "try_block e f = ([setUploadProgress 5, location_request f], Some x)"
      by (simp add: defs)
    with Inl show ?thesis by (blast intro: location_failed)
  next
    case pr: (Inr r)
    show ?thesis
    proof (cases "json r")
      case (Inl x)
      with pr have "try_block e f = ([setUploadProgress 5, location_request f], Some x)"
        by (simp add: defs)
      moreover from Inl have "isl (json r)" by simp
      ultimately show ?thesis using pr by (blast intro: location_failed)
    next
      case jr: (Inr b)
      show ?thesis
      proof (cases "ok r")
        case False
        with pr jr have "try_block e f = ([setUploadProgress 5, location_request f],
            Some (Error (or_default (detail b) ''Failed to get upload URL'')))"
          by (simp add: defs)
        with False pr show ?thesis by (blast intro: location_failed)
      next
        case okr: True
        show ?thesis
        proof (cases "\<exists>t. upload e = xhr_load 200 t")
          case False
          then have nl: "\<forall>t. upload e \<noteq> xhr_load 200 t" by simp
          have "\<exists>x. try_block e f = ([setUploadProgress 5, location_request f,
               setUploadProgress 10, upload_request (content b) f], Some x)"
            using pr jr okr nl by (cases "upload e") (simp_all add: defs)
          with pr jr okr nl show ?thesis by (blast intro: upload_failed)
        next
          case True
          then obtain t where up: "upload e = xhr_load 200 t" by blast
          show ?thesis
          proof (cases "analysisResponse e")
            case (Inl x)
            with pr jr okr up have "try_block e f = ([setUploadProgress 5, location_request f,
                setUploadProgress 10, upload_request (content b) f, setIsUploading False,
                setUploadProgress 75, analysis_request (content b)], Some x)"
              by (simp add: defs)
            with pr jr okr up Inl show ?thesis by (blast intro: analysis_failed)
          next
            case ar: (Inr r2)
            show ?thesis
            proof (cases "json r2")
              case (Inl x)
              with pr jr okr up ar have "try_block e f = ([setUploadProgress 5,
                  location_request f, setUploadProgress 10, upload_request (content b) f,
                  setIsUploading False, setUploadProgress 75, analysis_request (content b)],
                  Some x)"
                by (simp add: defs)
              moreover from Inl have "isl (json r2)" by simp
              ultimately show ?thesis using pr jr okr up ar by (blast intro: analysis_failed)
            next
              case jr2: (Inr b2)
              show ?thesis
              proof (cases "ok r2")
                case False
                with pr jr okr up ar jr2 have "try_block e f = ([setUploadProgress 5,
                    location_request f, setUploadProgress 10, upload_request (content b) f,
                    setIsUploading False, setUploadProgress 75, analysis_request (content b)],
                    Some (Error (or_default (detail b2) ''Analysis failed'')))"
                  by (simp add: defs)
                with pr jr okr up ar False show ?thesis by (blast intro: analysis_failed)
              next
                case True
                with pr jr okr up ar jr2 have "try_block e f = ([setUploadProgress 5,
                    location_request f, setUploadProgress 10, upload_request (content b) f,
                    setIsUploading False, setUploadProgress 75, analysis_request (content b),
                    setUploadProgress 100, setAnalysisResult (Some (content b2))], None)"
                  by (simp add: defs)
                with pr jr okr up ar jr2 True show ?thesis by (blast intro: succeeded)
              qed
            qed
          qed
        qed
      qed
    qed
  qed
qed


lemmas trace_defs =
  handleAnalyze_def after_handleAnalyze_def requests_def is_request_def
  location_request_def upload_request_def analysis_request_def

text \<open>The trace of the example run.\<close>

lemma example_run:
  "handleAnalyze example_env example_state =
     [setIsLoading True, setIsUploading True, setUploadProgress 0, setError None,
      setUploadProgress 5, location_request example_file, setUploadProgress 10,
      upload_request example_location example_file, setIsUploading False,
      setUploadProgress 75, analysis_request example_location, setUploadProgress 100,
      setAnalysisResult (Some documented_response),
      setIsLoading False, setIsUploading False, setUploadProgress 0]"
  by (simp add: handleAnalyze_def try_block_def Let_def example_env_def example_state_def
        initial_state_def location_request_def upload_request_def analysis_request_def)

subsection \<open>The result handed to the consumer\<close>




subsection \<open>The order of the three interactions\<close>

text \<open>
  Claim C6: in every run of the handler with a file selected, the upload location is
  requested first. When the location is not obtained, nothing else is sent. When it is
  obtained, the file is uploaded to the granted location next; when the upload does not
  end with status 200, nothing else is sent; when it does, the analysis is requested
  last, naming the returned \<open>s3_key\<close>. So the requests are always an initial part of
  the sequence location, upload, analysis, and the analysis is requested only after the
  location was granted and the upload ended with status 200. With no file selected,
  nothing is sent.
\<close>

theorem interactions_in_order:
  "prefix (map interaction_of (requests (handleAnalyze e s)))
          [Some RequestLocation, Some Upload, Some Analyze]
   \<and> (\<forall>a \<in> set (handleAnalyze e s). interaction_of a = Some Analyze \<longrightarrow>
        (\<exists>f r b statusText.
            selectedFile s = Some f \<and> presignedResponse e = Inr r \<and> ok r \<and> json r = Inr b
          \<and> upload e = xhr_load 200 statusText
          \<and> requests (handleAnalyze e s) =
              [location_request f, upload_request (content b) f, analysis_request (content b)]))
   \<and> (selectedFile s = None \<longrightarrow> requests (handleAnalyze e s) = [])
   \<and> (\<forall>f. selectedFile s = Some f \<longrightarrow>
         (location_fails e \<longrightarrow> requests (handleAnalyze e s) = [location_request f])
       \<and> (\<forall>r b. presignedResponse e = Inr r \<and> ok r \<and> json r = Inr b \<longrightarrow>
             (upload_fails e \<longrightarrow>
                requests (handleAnalyze e s) =
                  [location_request f, upload_request (content b) f])
           \<and> (\<not> upload_fails e \<longrightarrow>
                requests (handleAnalyze e s) =
                  [location_request f, upload_request (content b) f,
                   analysis_request (content b)])))"
proof (cases "selectedFile s")
  case None
  then show ?thesis by (simp add: trace_defs)
next
  case (Some f)
  show ?thesis
  proof (cases rule: try_block_cases [of e f])
    case (location_failed x)
    then have fails: "location_fails e"
      by (auto simp: location_fails_def)
    then have no: "\<not> (\<exists>r b. presignedResponse e = Inr r \<and> ok r \<and> json r = Inr b)"
      by (auto simp: location_fails_def)
    have req: "requests (handleAnalyze e s) = [location_request f]"
      using Some location_failed(2) by (simp add: trace_defs)
    have an: "\<forall>a \<in> set (handleAnalyze e s). interaction_of a \<noteq> Some Analyze"
      using Some location_failed(2) by (simp add: trace_defs)
    from req an no Some show ?thesis
      by (auto simp: location_request_def)
  next
    case (upload_failed r b x)
    then have fails: "upload_fails e" and granted: "\<not> location_fails e"
      by (auto simp: upload_fails_def location_fails_def split: xhr_outcome.splits)
    have req: "requests (handleAnalyze e s) =
        [location_request f, upload_request (content b) f]"
      using Some upload_failed(5) by (simp add: trace_defs)
    have an: "\<forall>a \<in> set (handleAnalyze e s). interaction_of a \<noteq> Some Analyze"
      using Some upload_failed(5) by (simp add: trace_defs)
    from req an fails granted upload_failed(1,3) Some show ?thesis
      by (auto simp: location_request_def upload_request_def)
  next
    case (analysis_failed r b t x)
    then have up: "\<not> upload_fails e" and granted: "\<not> location_fails e"
      by (auto simp: upload_fails_def location_fails_def)
    have req: "requests (handleAnalyze e s) =
        [location_request f, upload_request (content b) f, analysis_request (content b)]"
      using Some analysis_failed(6) by (simp add: trace_defs)
    from req up granted analysis_failed(1-4) Some show ?thesis
      by (auto simp: location_request_def upload_request_def analysis_request_def)
  next
    case (succeeded r b t r2 b2)
    then have up: "\<not> upload_fails e" and granted: "\<not> location_fails e"
      by (auto simp: upload_fails_def location_fails_def)
    have req: "requests (handleAnalyze e s) =
        [location_request f, upload_request (content b) f, analysis_request (content b)]"
      using Some succeeded(8) by (simp add: trace_defs)
    from req up granted succeeded(1-4) Some show ?thesis
      by (auto simp: location_request_def upload_request_def analysis_request_def)
  qed
qed

theorem interactions_in_order_witness:
  "selectedFile example_state = Some example_file
   \<and> presignedResponse example_env
        = Inr \<lparr>ok = True, json = Inr \<lparr>detail = None, content = example_location\<rparr>\<rparr>
   \<and> \<not> upload_fails example_env
   \<and> upload example_env = xhr_load 200 ''OK''
   \<and> analysis_request example_location \<in> set (handleAnalyze example_env example_state)
   \<and> interaction_of (analysis_request example_location) = Some Analyze
   \<and> requests (handleAnalyze example_env example_state) =
        [location_request example_file, upload_request example_location example_file,
         analysis_request example_location]
   \<and> upload_fails (example_env\<lparr>upload := xhr_error\<rparr>)
   \<and> requests (handleAnalyze (example_env\<lparr>upload := xhr_error\<rparr>) example_state) =
        [location_request example_file, upload_request example_location example_file]
   \<and> location_fails (example_env\<lparr>presignedResponse := Inl Thrown\<rparr>)
   \<and> requests (handleAnalyze (example_env\<lparr>presignedResponse := Inl Thrown\<rparr>) example_state) =
        [location_request example_file]
   \<and> selectedFile initial_state = None
   \<and> requests (handleAnalyze example_env initial_state) = []"
proof -
  let ?r = "\<lparr>ok = True, json = Inr \<lparr>detail = None, content = example_location\<rparr>\<rparr>"
  let ?b = "\<lparr>detail = None, content = example_location\<rparr>"
  have f: "selectedFile example_state = Some example_file"
    by (simp add: example_state_def)
  have n: "selectedFile initial_state = None"
    by (simp add: initial_state_def)
  have p: "presignedResponse example_env = Inr ?r"
    "presignedResponse (example_env\<lparr>upload := xhr_error\<rparr>) = Inr ?r"
    by (simp_all add: example_env_def)
  have u: "\<not> upload_fails example_env" "upload example_env = xhr_load 200 ''OK''"
    "upload_fails (example_env\<lparr>upload := xhr_error\<rparr>)"
    by (simp_all add: example_env_def upload_fails_def)
  have l: "location_fails (example_env\<lparr>presignedResponse := Inl Thrown\<rparr>)"
    by (simp add: location_fails_def)
  have m: "analysis_request example_location \<in> set (handleAnalyze example_env example_state)"
    by (simp add: example_run)
  have k: "interaction_of (analysis_request example_location) = Some Analyze"
    by (simp add: analysis_request_def)
  from interactions_in_order [of example_env example_state] f p(1) u(1)
  have r1: "requests (handleAnalyze example_env example_state) =
        [location_request example_file, upload_request example_location example_file,
         analysis_request example_location]"
    by fastforce
  from interactions_in_order [of "example_env\<lparr>upload := xhr_error\<rparr>" example_state] f p(2) u(3)
  have r2: "requests (handleAnalyze (example_env\<lparr>upload := xhr_error\<rparr>) example_state) =
        [location_request example_file, upload_request example_location example_file]"
    by fastforce
  from interactions_in_order [of "example_env\<lparr>presignedResponse := Inl Thrown\<rparr>" example_state] f l
  have r3: "requests (handleAnalyze (example_env\<lparr>presignedResponse := Inl Thrown\<rparr>) example_state) =
        [location_request example_file]"
    by blast
  from interactions_in_order [of example_env initial_state] n
  have r4: "requests (handleAnalyze example_env initial_state) = []"
    by blast
  from f p(1) u l m k n r1 r2 r3 r4 show ?thesis by blast
qed

subsection \<open>Failure of a step\<close>

text \<open>
  Claim C7: when a file is selected and a step of the flow fails (the upload location is
  not obtained, the upload does not end with status 200, or the analysis call is not
  answered with an ok status), the handler stores no result: the stored result is the one
  held before, so it remains empty when it was empty. Exactly one error message is set, it
  is the one held afterwards, and no interaction is issued twice.
\<close>

theorem failure_is_atomic:
  assumes "selectedFile s = Some f"
    and "location_fails e \<or> upload_fails e \<or> analysis_fails e"
  shows "analysisResult (after_handleAnalyze e s) = analysisResult s
       \<and> (analysisResult s = None \<longrightarrow> analysisResult (after_handleAnalyze e s) = None)
       \<and> filter stores_result (handleAnalyze e s) = []
       \<and> (\<exists>m. filter reports_error (handleAnalyze e s) = [setError (Some m)]
              \<and> error (after_handleAnalyze e s) = Some m)
       \<and> distinct (map interaction_of (requests (handleAnalyze e s)))"
proof (cases rule: try_block_cases [of e f])
  case (location_failed x)
  with assms(1) show ?thesis by (simp add: trace_defs)
next
  case (upload_failed r b x)
  with assms(1) show ?thesis by (simp add: trace_defs)
next
  case (analysis_failed r b t x)
  with assms(1) show ?thesis by (simp add: trace_defs)
next
  case (succeeded r b t r2 b2)
  with assms(2) have False
    by (simp add: location_fails_def upload_fails_def analysis_fails_def)
  then show ?thesis ..
qed

theorem failure_is_atomic_witness:
  "selectedFile example_state = Some example_file
   \<and> upload_fails (example_env\<lparr>upload := xhr_timeout\<rparr>)
   \<and> analysisResult example_state = None
   \<and> analysisResult (after_handleAnalyze (example_env\<lparr>upload := xhr_timeout\<rparr>) example_state) = None
   \<and> filter stores_result (handleAnalyze (example_env\<lparr>upload := xhr_timeout\<rparr>) example_state) = []
   \<and> distinct (map interaction_of
        (requests (handleAnalyze (example_env\<lparr>upload := xhr_timeout\<rparr>) example_state)))"
proof -
  have h1: "selectedFile example_state = Some example_file"
    by (simp add: example_state_def)
  have h2: "upload_fails (example_env\<lparr>upload := xhr_timeout\<rparr>)"
    by (simp add: upload_fails_def)
  have h3: "analysisResult example_state = None"
    by (simp add: example_state_def initial_state_def)
  from failure_is_atomic [OF h1 disjI2 [OF disjI1 [OF h2]]] h1 h2 h3
  show ?thesis by simp
qed

subsection \<open>What a request carries\<close>

text \<open>
  Claim C8, as the specification states it: every analysis request carries the window
  size, the overlap, the IoU threshold and the confidence floor. The analysis request of
  the example run is a counterexample: its body has the single property \<open>s3_key\<close>.
\<close>

theorem analysis_request_lacks_configuration:
  "fetch ''/analyze-s3'' [(''s3_key'', ''uploads/uuid-filename.jpg'')]
      \<in> set (handleAnalyze example_env example_state)
   \<and> request_keys (fetch ''/analyze-s3'' [(''s3_key'', ''uploads/uuid-filename.jpg'')])
      = [''s3_key'']
   \<and> ''window_size'' \<notin> set (request_keys (fetch ''/analyze-s3'' [(''s3_key'', ''uploads/uuid-filename.jpg'')]))
   \<and> ''overlap'' \<notin> set (request_keys (fetch ''/analyze-s3'' [(''s3_key'', ''uploads/uuid-filename.jpg'')]))
   \<and> ''iou_threshold'' \<notin> set (request_keys (fetch ''/analyze-s3'' [(''s3_key'', ''uploads/uuid-filename.jpg'')]))
   \<and> ''confidence_floor'' \<notin> set (request_keys (fetch ''/analyze-s3'' [(''s3_key'', ''uploads/uuid-filename.jpg'')]))"
  by (simp add: example_run analysis_request_def example_location_def)

text \<open>
  Claim C8, amended: no request the handler sends carries any of the four configuration
  parameters, and the body of an analysis request has the single property \<open>s3_key\<close>.
\<close>

theorem request_carries_only_s3_key:
  "\<forall>a \<in> set (handleAnalyze e s).
      set (request_keys a) \<inter> set config_keys = {}
    \<and> (interaction_of a = Some Analyze \<longrightarrow> request_keys a = [''s3_key''])"
proof (cases "selectedFile s")
  case None
  then show ?thesis by (simp add: trace_defs config_keys_def)
next
  case (Some f)
  show ?thesis
  proof (cases rule: try_block_cases [of e f])
    case (location_failed x)
    with Some show ?thesis by (simp add: trace_defs config_keys_def)
  next
    case (upload_failed r b x)
    with Some show ?thesis by (simp add: trace_defs config_keys_def)
  next
    case (analysis_failed r b t x)
    with Some show ?thesis by (simp add: trace_defs config_keys_def)
  next
    case (succeeded r b t r2 b2)
    with Some show ?thesis by (simp add: trace_defs config_keys_def)
  qed
qed

theorem request_carries_only_s3_key_witness:
  "analysis_request example_location \<in> set (handleAnalyze example_env example_state)
   \<and> interaction_of (analysis_request example_location) = Some Analyze
   \<and> set (request_keys (analysis_request example_location)) \<inter> set config_keys = {}
   \<and> request_keys (analysis_request example_location) = [''s3_key'']"
proof -
  have m: "analysis_request example_location \<in> set (handleAnalyze example_env example_state)"
    by (simp add: example_run)
  have k: "interaction_of (analysis_request example_location) = Some Analyze"
    by (simp add: analysis_request_def)
  from request_carries_only_s3_key [of example_env example_state] m k
  show ?thesis by blast
qed

subsection \<open>No file selected\<close>

text \<open>
  Claim C9: when no file is selected, the handler's only action is to set the error
  message \<open>Please select an image first\<close>: it sends no request, and the state afterwards
  differs from the state before in the error message alone.
\<close>

theorem handleAnalyze_no_file:
  "selectedFile s = None \<Longrightarrow>
     handleAnalyze e s = [setError (Some ''Please select an image first'')]
     \<and> requests (handleAnalyze e s) = []
     \<and> after_handleAnalyze e s = s\<lparr>error := Some ''Please select an image first''\<rparr>"
  by (simp add: handleAnalyze_def after_handleAnalyze_def requests_def is_request_def)

theorem handleAnalyze_no_file_witness:
  "selectedFile initial_state = None
   \<and> handleAnalyze example_env initial_state = [setError (Some ''Please select an image first'')]
   \<and> requests (handleAnalyze example_env initial_state) = []
   \<and> after_handleAnalyze example_env initial_state
       = initial_state\<lparr>error := Some ''Please select an image first''\<rparr>"
proof -
  have h: "selectedFile initial_state = None" by (simp add: initial_state_def)
  from handleAnalyze_no_file [OF h, of example_env] h show ?thesis by blast
qed

section \<open>Properties of the pipeline\<close>

subsection \<open>The walk along one axis\<close>

lemma origins_from_inside:
  "0 < stride \<Longrightarrow> a \<in> set (origins_from extent ws stride origin) \<Longrightarrow>
     min origin (extent - ws) \<le> a \<and> a + ws \<le> extent"
proof (induction extent ws stride origin rule: origins_from.induct)
  case (1 extent ws stride origin)
  show ?case
  proof (cases "extent \<le> origin + ws")
    case True
    with 1(2,3) show ?thesis by (simp add: origins_from.simps [of extent ws stride origin])
  next
    case False
    with 1(2,3) have "a = origin \<or> a \<in> set (origins_from extent ws stride (origin + stride))"
      by (simp add: origins_from.simps [of extent ws stride origin])
    then show ?thesis
    proof
      assume "a = origin"
      with False show ?thesis by simp
    next
      assume "a \<in> set (origins_from extent ws stride (origin + stride))"
      with 1(1) [OF _ False 1(2)] 1(2)
      have "min (origin + stride) (extent - ws) \<le> a \<and> a + ws \<le> extent" by simp
      with 1(2) show ?thesis by linarith
    qed
  qed
qed

lemma origins_from_covers:
  "0 < stride \<Longrightarrow> stride \<le> ws \<Longrightarrow> origin \<le> p \<Longrightarrow> p < extent \<Longrightarrow>
     \<exists>a \<in> set (origins_from extent ws stride origin). a \<le> p \<and> p < a + ws"
proof (induction extent ws stride origin rule: origins_from.induct)
  case (1 extent ws stride origin)
  show ?case
  proof (cases "extent \<le> origin + ws")
    case True
    with 1(2-5) show ?thesis by (simp add: origins_from.simps [of extent ws stride origin])
  next
    case False
    show ?thesis
    proof (cases "p < origin + stride")
      case True
      with False 1(2-5) show ?thesis
        by (simp add: origins_from.simps [of extent ws stride origin])
    next
      case far: False
      with 1(1) [OF _ False 1(2,3) _ 1(5)] 1(2)
      have "\<exists>a \<in> set (origins_from extent ws stride (origin + stride)). a \<le> p \<and> p < a + ws"
        by simp
      with False 1(2) show ?thesis
        by (simp add: origins_from.simps [of extent ws stride origin])
    qed
  qed
qed

lemma origins_from_regular:
  "0 < stride \<Longrightarrow> a \<in> set (origins_from extent ws stride origin) \<Longrightarrow>
     stride dvd (a - origin) \<or> a + ws = extent"
proof (induction extent ws stride origin rule: origins_from.induct)
  case (1 extent ws stride origin)
  show ?case
  proof (cases "extent \<le> origin + ws")
    case True
    with 1(2,3) show ?thesis by (simp add: origins_from.simps [of extent ws stride origin])
  next
    case False
    with 1(2,3) have "a = origin \<or> a \<in> set (origins_from extent ws stride (origin + stride))"
      by (simp add: origins_from.simps [of extent ws stride origin])
    then show ?thesis
    proof
      assume "a = origin"
      then show ?thesis by simp
    next
      assume "a \<in> set (origins_from extent ws stride (origin + stride))"
      with 1(1) [OF _ False 1(2)] 1(2)
      have "stride dvd (a - (origin + stride)) \<or> a + ws = extent" by simp
      moreover have "a - origin = (a - (origin + stride)) + stride" by simp
      ultimately show ?thesis by (metis dvd_add_triv_right_iff)
    qed
  qed
qed

lemma axis_inside:
  assumes "1 \<le> extent" "0 < stride" "a \<in> set (axis_origins extent ws stride)"
  shows "0 \<le> a \<and> a + min ws extent \<le> extent"
proof (cases "extent \<le> ws")
  case True
  with assms show ?thesis by (simp add: axis_origins_def)
next
  case False
  with assms(3) have "a \<in> set (origins_from extent ws stride 0)"
    by (simp add: axis_origins_def)
  from origins_from_inside [OF assms(2) this] False show ?thesis by simp
qed

lemma axis_covers:
  assumes "0 < stride" "stride \<le> ws"
  shows "(\<Union>a \<in> set (axis_origins extent ws stride). {a ..< a + min ws extent}) = {0 ..< extent}"
proof (cases "extent \<le> ws")
  case True
  then show ?thesis by (simp add: axis_origins_def)
next
  case False
  then have eq: "axis_origins extent ws stride = origins_from extent ws stride 0"
    and m: "min ws extent = ws"
    by (simp_all add: axis_origins_def)
  show ?thesis
  proof (intro equalityI subsetI)
    fix p assume "p \<in> (\<Union>a \<in> set (axis_origins extent ws stride). {a ..< a + min ws extent})"
    then obtain a where a: "a \<in> set (origins_from extent ws stride 0)" "a \<le> p" "p < a + ws"
      by (auto simp: eq m)
    from origins_from_inside [OF assms(1) a(1)] False a(2,3)
    show "p \<in> {0 ..< extent}" by simp
  next
    fix p assume "p \<in> {0 ..< extent}"
    then have "0 \<le> p" "p < extent" by simp_all
    from origins_from_covers [OF assms this]
    show "p \<in> (\<Union>a \<in> set (axis_origins extent ws stride). {a ..< a + min ws extent})"
      by (auto simp: eq m)
  qed
qed

lemma axis_regular:
  assumes "0 < stride" "ws < extent" "a \<in> set (axis_origins extent ws stride)"
  shows "a mod stride = 0 \<or> a + ws = extent"
proof -
  from assms(2,3) have "a \<in> set (origins_from extent ws stride 0)"
    by (simp add: axis_origins_def)
  from origins_from_regular [OF assms(1) this] show ?thesis
    by (auto simp: mod_eq_0_iff_dvd)
qed

subsection \<open>The grid of windows\<close>

lemma tile_grid:
  assumes "0 \<le> overlap" "overlap < ws"
  shows "tile img ws overlap = Inr (grid img ws (ws - overlap))"
proof (cases "classify img ws")
  case Direct
  then have "Image.width img \<le> ws" "Image.height img \<le> ws"
    by (simp_all add: classify_def split: if_splits)
  with assms Direct show ?thesis
    by (simp add: tile_def grid_def axis_origins_def Let_def)
next
  case Tiled
  with assms show ?thesis
    by (simp add: tile_def Let_def)
qed

lemma grid_windows:
  "w \<in> set (grid img ws stride) \<longleftrightarrow>
     origin_x w \<in> set (axis_origins (Image.width img) ws stride)
   \<and> origin_y w \<in> set (axis_origins (Image.height img) ws stride)
   \<and> Window.width w = min ws (Image.width img)
   \<and> Window.height w = min ws (Image.height img)
   \<and> Window.more w = ()"
  by (cases w) (auto simp: grid_def)

lemma grid_pixels:
  "(\<Union>w \<in> set (grid img ws stride). pixels w) =
     (\<Union>x \<in> set (axis_origins (Image.width img) ws stride). {x ..< x + min ws (Image.width img)})
   \<times> (\<Union>y \<in> set (axis_origins (Image.height img) ws stride). {y ..< y + min ws (Image.height img)})"
  by (auto simp: grid_def pixels_def)

subsection \<open>Suppression within one class\<close>

lemma nms_subset: "set (nms t xs) \<subseteq> set xs"
  by (induction t xs rule: nms.induct) auto

lemma nms_filter_id:
  "\<forall>e \<in> set xs. P e \<Longrightarrow> filter P (nms t xs) = nms t xs"
  using nms_subset [of t xs] by (auto simp: filter_id_conv)

lemma nms_idem: "nms t (nms t xs) = nms t xs"
proof (induction t xs rule: nms.induct)
  case (1 t)
  then show ?case by simp
next
  case (2 t d ds)
  have "filter (\<lambda>e. \<not> t < iou d e) (nms t (filter (\<lambda>e. \<not> t < iou d e) ds))
        = nms t (filter (\<lambda>e. \<not> t < iou d e) ds)"
    by (rule nms_filter_id) simp
  with 2 show ?case by simp
qed

lemma nms_sorted: "sorted (map f xs) \<Longrightarrow> sorted (map f (nms t xs))"
proof (induction t xs rule: nms.induct)
  case (1 t)
  then show ?case by simp
next
  case (2 t d ds)
  from 2(2) have s: "sorted (map f ds)" and le: "\<forall>e \<in> set ds. f d \<le> f e" by auto
  from s have "sorted (map f (filter (\<lambda>e. \<not> t < iou d e) ds))"
    by (rule sorted_filter)
  then have "sorted (map f (nms t (filter (\<lambda>e. \<not> t < iou d e) ds)))" by (rule 2(1))
  moreover have "\<forall>e \<in> set (nms t (filter (\<lambda>e. \<not> t < iou d e) ds)). f d \<le> f e"
    using le nms_subset [of t "filter (\<lambda>e. \<not> t < iou d e) ds"] by auto
  ultimately show ?case by simp
qed

lemma nms_nonempty: "xs \<noteq> [] \<Longrightarrow> nms t xs \<noteq> []"
  by (cases xs) simp_all

lemma merge_kept:
  "merge ds t = concat (map (kept_of_class ds t) (sort (remdups (map class_id ds))))"
  by (simp add: merge_def)

lemma kept_class: "d \<in> set (kept_of_class ds t c) \<Longrightarrow> class_id d = c \<and> d \<in> set ds"
  using nms_subset [of t "sort_key sort_key_of (filter (\<lambda>d. class_id d = c) ds)"]
  by (auto simp: kept_of_class_def)

lemma kept_nonempty: "c \<in> class_id ` set ds \<Longrightarrow> kept_of_class ds t c \<noteq> []"
proof -
  assume "c \<in> class_id ` set ds"
  then have "filter (\<lambda>d. class_id d = c) ds \<noteq> []"
    by (auto simp: filter_empty_conv)
  then have "sort_key sort_key_of (filter (\<lambda>d. class_id d = c) ds) \<noteq> []"
    by (metis length_sort length_0_conv)
  then show ?thesis unfolding kept_of_class_def by (rule nms_nonempty)
qed

lemma kept_fixed:
  "nms t (sort_key sort_key_of (kept_of_class ds t c)) = kept_of_class ds t c"
proof -
  have "sorted (map sort_key_of (kept_of_class ds t c))"
    unfolding kept_of_class_def by (rule nms_sorted) (rule sorted_sort_key)
  then have "sort_key sort_key_of (kept_of_class ds t c) = kept_of_class ds t c"
    by (rule sort_key_id_if_sorted)
  then show ?thesis by (simp add: kept_of_class_def nms_idem)
qed

lemma filter_concat_classes:
  assumes "distinct cs" and "c \<in> set cs"
    and "\<And>c' d. d \<in> set (G c') \<Longrightarrow> class_id d = c'"
  shows "filter (\<lambda>d. class_id d = c) (concat (map G cs)) = G c"
  using assms(1,2)
proof (induction cs)
  case Nil
  then show ?case by simp
next
  case (Cons a cs)
  show ?case
  proof (cases "a = c")
    case True
    with Cons.prems have "c \<notin> set cs" by simp
    then have "filter (\<lambda>d. class_id d = c) (concat (map G cs)) = []"
      using assms(3) by (auto simp: filter_empty_conv)
    moreover have "filter (\<lambda>d. class_id d = c) (G c) = G c"
      using assms(3) by (auto simp: filter_id_conv)
    ultimately show ?thesis using True by simp
  next
    case False
    then have "filter (\<lambda>d. class_id d = c) (G a) = []"
      using assms(3) by (auto simp: filter_empty_conv)
    moreover from False Cons.prems have "distinct cs" "c \<in> set cs" by auto
    ultimately show ?thesis using Cons.IH by simp
  qed
qed

lemma merge_classes: "class_id ` set (merge ds t) = class_id ` set ds"
proof
  show "class_id ` set (merge ds t) \<subseteq> class_id ` set ds"
    by (auto simp: merge_kept dest: kept_class)
  show "class_id ` set ds \<subseteq> class_id ` set (merge ds t)"
  proof
    fix c assume c: "c \<in> class_id ` set ds"
    then obtain d where d: "d \<in> set (kept_of_class ds t c)"
      using kept_nonempty [of c ds t] by (cases "kept_of_class ds t c") auto
    then have "class_id d = c" by (simp add: kept_class)
    moreover from c d have "d \<in> set (merge ds t)"
      by (auto simp: merge_kept)
    ultimately show "c \<in> class_id ` set (merge ds t)" by blast
  qed
qed

subsection \<open>The count of detections\<close>

text \<open>
  Claim C2: in every assembled result, \<open>total_detections\<close> is the number of elements of
  \<open>predictions\<close>.
\<close>

theorem total_detections_is_count:
  "Result.total_detections (assemble img ds m ws)
     = int (length (Result.predictions (assemble img ds m ws)))"
  by (simp add: assemble_def)

theorem total_detections_is_count_witness:
  "Result.total_detections (assemble example_image example_detections Tiled 640) = 3
   \<and> length (Result.predictions (assemble example_image example_detections Tiled 640)) = 3"
proof -
  have "length (Result.predictions (assemble example_image example_detections Tiled 640)) = 3"
    by (simp add: assemble_def example_detections_def)
  with total_detections_is_count [of example_image example_detections Tiled 640]
  show ?thesis by simp
qed

subsection \<open>Coverage by the tiler\<close>

text \<open>
  Claim C3, as the specification states it, ends with the scenario of a 1280 by 1280
  image, window size 640 and overlap 64, for which it names exactly four windows, at the
  origins (0,0), (576,0), (0,576) and (576,576). This is a counterexample: the tiler
  yields nine windows there, with the origins 0, 576 and 640 along each axis; and four
  windows of size 640 at the named origins would leave the pixel (1279, 1279) of the
  image uncovered.
\<close>

theorem scenario_has_nine_windows:
  "tile example_image 640 64 = Inr (map window_at example_origins)
   \<and> length example_origins = 9
   \<and> set example_origins \<noteq> set scenario_origins
   \<and> (1279, 1279) \<in> {0 ..< Image.width example_image} \<times> {0 ..< Image.height example_image}
   \<and> (1279, 1279) \<notin> (\<Union>p \<in> set scenario_origins. pixels (window_at p))"
proof -
  have "tile example_image 640 64 = Inr (map window_at example_origins)"
    by (simp add: tile_def classify_def grid_def axis_origins_def origins_from.simps
          example_image_def example_origins_def window_at_def Let_def)
  moreover have "length example_origins = 9"
    by (simp add: example_origins_def)
  moreover have "(640, 0) \<in> set example_origins" "(640, 0) \<notin> set scenario_origins"
    by (simp_all add: example_origins_def scenario_origins_def)
  then have "set example_origins \<noteq> set scenario_origins" by blast
  moreover have "(1279, 1279) \<in> {0 ..< Image.width example_image} \<times> {0 ..< Image.height example_image}"
    by (simp add: example_image_def)
  moreover have "(1279, 1279) \<notin> (\<Union>p \<in> set scenario_origins. pixels (window_at p))"
    by (simp add: scenario_origins_def pixels_def window_at_def)
  ultimately show ?thesis by blast
qed

text \<open>
  Claim C3, amended: for every image of width and height at least 1 and every
  configuration with \<open>0 \<le> overlap < ws\<close>, the tiler returns windows whose union is
  exactly the rectangle of the image, none extending outside it; along an axis longer
  than the window every window has the window size, and its origin is a multiple of the
  stride or pulled back so that origin plus window size is the image dimension. For the
  1280 by 1280 image with window size 640 and overlap 64 these are the nine windows with
  the origins 0, 576 and 640 along each axis.
\<close>

theorem tile_covers_image:
  assumes "1 \<le> Image.width img" and "1 \<le> Image.height img"
    and "0 \<le> overlap" and "overlap < ws"
  shows "\<exists>wins. tile img ws overlap = Inr wins
     \<and> (\<Union>w \<in> set wins. pixels w) = {0 ..< Image.width img} \<times> {0 ..< Image.height img}
     \<and> (\<forall>w \<in> set wins.
           0 \<le> origin_x w \<and> origin_x w + Window.width w \<le> Image.width img
         \<and> 0 \<le> origin_y w \<and> origin_y w + Window.height w \<le> Image.height img)
     \<and> (\<forall>w \<in> set wins.
           (ws < Image.width img \<longrightarrow>
              Window.width w = ws
            \<and> (origin_x w mod (ws - overlap) = 0 \<or> origin_x w + ws = Image.width img))
         \<and> (ws < Image.height img \<longrightarrow>
              Window.height w = ws
            \<and> (origin_y w mod (ws - overlap) = 0 \<or> origin_y w + ws = Image.height img)))
     \<and> tile example_image 640 64 = Inr (map window_at example_origins)"
proof -
  let ?stride = "ws - overlap"
  let ?wins = "grid img ws ?stride"
  from assms have stride: "0 < ?stride" "?stride \<le> ws" by simp_all
  have t: "tile img ws overlap = Inr ?wins"
    using assms(3,4) by (rule tile_grid)
  have cover: "(\<Union>w \<in> set ?wins. pixels w) = {0 ..< Image.width img} \<times> {0 ..< Image.height img}"
    by (simp only: grid_pixels axis_covers [OF stride])
  have inside: "\<forall>w \<in> set ?wins.
           0 \<le> origin_x w \<and> origin_x w + Window.width w \<le> Image.width img
         \<and> 0 \<le> origin_y w \<and> origin_y w + Window.height w \<le> Image.height img"
  proof
    fix w assume "w \<in> set ?wins"
    then have w: "origin_x w \<in> set (axis_origins (Image.width img) ws ?stride)"
      "origin_y w \<in> set (axis_origins (Image.height img) ws ?stride)"
      "Window.width w = min ws (Image.width img)"
      "Window.height w = min ws (Image.height img)"
      by (simp_all add: grid_windows)
    from axis_inside [OF assms(1) stride(1) w(1)] axis_inside [OF assms(2) stride(1) w(2)] w(3,4)
    show "0 \<le> origin_x w \<and> origin_x w + Window.width w \<le> Image.width img
         \<and> 0 \<le> origin_y w \<and> origin_y w + Window.height w \<le> Image.height img"
      by simp
  qed
  have regular: "\<forall>w \<in> set ?wins.
           (ws < Image.width img \<longrightarrow>
              Window.width w = ws
            \<and> (origin_x w mod ?stride = 0 \<or> origin_x w + ws = Image.width img))
         \<and> (ws < Image.height img \<longrightarrow>
              Window.height w = ws
            \<and> (origin_y w mod ?stride = 0 \<or> origin_y w + ws = Image.height img))"
  proof
    fix w assume "w \<in> set ?wins"
    then have w: "origin_x w \<in> set (axis_origins (Image.width img) ws ?stride)"
      "origin_y w \<in> set (axis_origins (Image.height img) ws ?stride)"
      "Window.width w = min ws (Image.width img)"
      "Window.height w = min ws (Image.height img)"
      by (simp_all add: grid_windows)
    have "Window.width w = ws
            \<and> (origin_x w mod ?stride = 0 \<or> origin_x w + ws = Image.width img)"
      if "ws < Image.width img"
      using axis_regular [OF stride(1) that w(1)] w(3) that by simp
    moreover have "Window.height w = ws
            \<and> (origin_y w mod ?stride = 0 \<or> origin_y w + ws = Image.height img)"
      if "ws < Image.height img"
      using axis_regular [OF stride(1) that w(2)] w(4) that by simp
    ultimately show "(ws < Image.width img \<longrightarrow>
              Window.width w = ws
            \<and> (origin_x w mod ?stride = 0 \<or> origin_x w + ws = Image.width img))
         \<and> (ws < Image.height img \<longrightarrow>
              Window.height w = ws
            \<and> (origin_y w mod ?stride = 0 \<or> origin_y w + ws = Image.height img))"
      by blast
  qed
  have ex: "tile example_image 640 64 = Inr (map window_at example_origins)"
    by (simp add: tile_def classify_def grid_def axis_origins_def origins_from.simps
          example_image_def example_origins_def window_at_def Let_def)
  from t cover inside regular ex show ?thesis by blast
qed

theorem tile_covers_image_witness:
  "1 \<le> Image.width example_image \<and> 1 \<le> Image.height example_image
   \<and> (0 :: int) \<le> 64 \<and> (64 :: int) < 640
   \<and> tile example_image 640 64 = Inr (map window_at example_origins)
   \<and> (\<Union>w \<in> set (map window_at example_origins). pixels w) = {0 ..< 1280} \<times> {0 ..< 1280}"
proof -
  have h1: "1 \<le> Image.width example_image" and h2: "1 \<le> Image.height example_image"
    by (simp_all add: example_image_def)
  have h3: "(0 :: int) \<le> 64" and h4: "(64 :: int) < 640" by simp_all
  from tile_covers_image [OF h1 h2 h3 h4]
  obtain wins where wins: "tile example_image 640 64 = Inr wins"
    "(\<Union>w \<in> set wins. pixels w)
       = {0 ..< Image.width example_image} \<times> {0 ..< Image.height example_image}"
    "tile example_image 640 64 = Inr (map window_at example_origins)"
    by blast
  from wins(1,3) have "wins = map window_at example_origins" by simp
  with wins(2) have "(\<Union>w \<in> set (map window_at example_origins). pixels w)
       = {0 ..< 1280} \<times> {0 ..< 1280}"
    by (simp add: example_image_def)
  with h1 h2 h3 h4 wins(3) show ?thesis by blast
qed

subsection \<open>Idempotence of the merger\<close>

text \<open>
  Claim C4: for every sequence of detections and every IoU threshold, merging the output
  of \<open>merge\<close> again returns that output: the same detections, in the same order.
\<close>

theorem merge_idempotent: "merge (merge ds t) t = merge ds t"
proof -
  let ?cs = "sort (remdups (map class_id ds))"
  have cs: "sort (remdups (map class_id (merge ds t))) = ?cs"
    using merge_classes [of ds t]
    by (simp add: sorted_list_of_set_sort_remdups [symmetric])
  have dist: "distinct ?cs" by simp
  have "kept_of_class (merge ds t) t c = kept_of_class ds t c" if "c \<in> set ?cs" for c
  proof -
    have "filter (\<lambda>d. class_id d = c) (merge ds t) = kept_of_class ds t c"
      unfolding merge_kept using dist that
      by (rule filter_concat_classes) (simp add: kept_class)
    then show ?thesis
      using kept_fixed [of t ds c] by (simp add: kept_of_class_def)
  qed
  then have maps: "map (kept_of_class (merge ds t) t) ?cs = map (kept_of_class ds t) ?cs"
    by (intro map_cong refl)
  have "merge (merge ds t) t =
      concat (map (kept_of_class (merge ds t) t) (sort (remdups (map class_id (merge ds t)))))"
    by (rule merge_kept)
  also have "\<dots> = concat (map (kept_of_class (merge ds t) t) ?cs)"
    by (simp only: cs)
  also have "\<dots> = concat (map (kept_of_class ds t) ?cs)"
    by (simp only: maps)
  also have "\<dots> = merge ds t"
    by (rule merge_kept [symmetric])
  finally show ?thesis .
qed

theorem merge_idempotent_witness:
  "iou strong_detection weak_detection = 85 / 100
   \<and> merge example_detections (1 / 2) = [strong_detection, other_detection]
   \<and> merge (merge example_detections (1 / 2)) (1 / 2) = [strong_detection, other_detection]"
proof -
  note defs = example_detections_def weak_detection_def strong_detection_def
    other_detection_def iou_def intersection_def area_def Let_def
  have i: "iou strong_detection weak_detection = 85 / 100"
    by (simp add: defs)
  have m: "merge example_detections (1 / 2) = [strong_detection, other_detection]"
    by (simp add: merge_def kept_of_class_def sort_key_of_def defs
          less_eq_prod_def less_prod_def)
  from merge_idempotent [of example_detections "1 / 2"] m
  have "merge (merge example_detections (1 / 2)) (1 / 2) = [strong_detection, other_detection]"
    by simp
  with i m show ?thesis by blast
qed

subsection \<open>The size classifier and its record\<close>

text \<open>
  Claim C5: \<open>classify\<close> returns \<open>Direct\<close> exactly when the width and the height of the
  image are both at most the window size, and \<open>Tiled\<close> otherwise; the result assembled
  with this classification records its name as \<open>method\<close>, which is one of the strings
  \<open>direct\<close> and \<open>sliding_window\<close>; and two images of the same dimensions are classified
  alike.
\<close>

theorem classify_recorded:
  "(classify img ws = Direct \<longleftrightarrow> Image.width img \<le> ws \<and> Image.height img \<le> ws)
   \<and> (classify img ws = Tiled \<longleftrightarrow> \<not> (Image.width img \<le> ws \<and> Image.height img \<le> ws))
   \<and> Provenance.method (Result.processing_info (assemble img ds (classify img ws) ws))
        = method_name (classify img ws)
   \<and> method_name (classify img ws) \<in> {''direct'', ''sliding_window''}
   \<and> (Image.width img' = Image.width img \<and> Image.height img' = Image.height img
        \<longrightarrow> classify img' ws = classify img ws)"
  by (cases "classify img ws") (auto simp: classify_def assemble_def split: if_splits)

theorem classify_recorded_witness:
  "classify example_image 640 = Tiled
   \<and> \<not> (Image.width example_image \<le> 640 \<and> Image.height example_image \<le> 640)
   \<and> Provenance.method
        (Result.processing_info (assemble example_image example_detections
           (classify example_image 640) 640)) = ''sliding_window''
   \<and> Image.width (example_image\<lparr>Image.original_format := None\<rparr>) = Image.width example_image
   \<and> Image.height (example_image\<lparr>Image.original_format := None\<rparr>) = Image.height example_image
   \<and> classify (example_image\<lparr>Image.original_format := None\<rparr>) 640 = classify example_image 640"
proof -
  have big: "\<not> (Image.width example_image \<le> 640 \<and> Image.height example_image \<le> 640)"
    by (simp add: example_image_def)
  have same: "Image.width (example_image\<lparr>Image.original_format := None\<rparr>) = Image.width example_image"
    "Image.height (example_image\<lparr>Image.original_format := None\<rparr>) = Image.height example_image"
    by simp_all
  note c = classify_recorded [of example_image 640 example_detections
      "example_image\<lparr>Image.original_format := None\<rparr>"]
  from c big have t: "classify example_image 640 = Tiled" by blast
  from c same have "classify (example_image\<lparr>Image.original_format := None\<rparr>) 640
      = classify example_image 640" by blast
  moreover from c t have "Provenance.method
        (Result.processing_info (assemble example_image example_detections
           (classify example_image 640) 640)) = ''sliding_window''" by simp
  ultimately show ?thesis using t big same by blast
qed

section \<open>Properties of the image viewer\<close>

text \<open>
  The buttons and the mouse wheel keep a scale of the interval in the interval, and so
  does a pinch unless the stored initial distance and the current distance are both zero.
\<close>

lemma zoom_keeps_range:
  assumes "in_range (scale s)"
  shows "in_range (scale (zoomIn s))"
    and "in_range (scale (zoomOut s))"
    and "in_range (scale (handleWheel deltaY s))"
proof -
  from assms obtain r where r: "scale s = Num r" "1 / 10 \<le> r" "r \<le> 8"
    by (cases "scale s") simp_all
  from r show "in_range (scale (zoomIn s))"
    by (simp add: zoomIn_def)
  from r show "in_range (scale (zoomOut s))"
    by (simp add: zoomOut_def)
  from r show "in_range (scale (handleWheel deltaY s))"
    by (simp add: handleWheel_def Let_def)
qed

lemma pinch_keeps_range:
  assumes "initialPinchDistance s = Some (Num d0)" and "initialScale s = Some (Num r)"
    and "0 < r" and "0 \<le> d0"
    and "d0 \<noteq> 0 \<or> t1 \<noteq> t2"
  shows "in_range (scale (handleTouchZoom [t1, t2] s))"
proof -
  define d where "d = sqrt ((fst t2 - fst t1)\<^sup>2 + (snd t2 - snd t1)\<^sup>2)"
  have d: "0 \<le> d" by (simp add: d_def)
  have step: "scale (handleTouchZoom [t1, t2] s) =
      Math_min (Math_max (times_number (Num r) (divide_number (Num d) (Num d0)))
                         (Num (1 / 10))) (Num 8)"
    using assms(1,2) by (simp add: handleTouchZoom_def Let_def d_def)
  show ?thesis
  proof (cases "d0 = 0")
    case True
    with assms(5) have "t1 \<noteq> t2" by simp
    then have "fst t2 - fst t1 \<noteq> 0 \<or> snd t2 - snd t1 \<noteq> 0"
      by (auto simp: prod_eq_iff)
    then have "0 < (fst t2 - fst t1)\<^sup>2 + (snd t2 - snd t1)\<^sup>2"
      by (simp only: sum_power2_gt_zero_iff)
    then have "0 < d" by (simp add: d_def)
    with True assms(3) show ?thesis
      by (simp add: step)
  next
    case False
    with assms(3,4) d show ?thesis
      by (simp add: step)
  qed
qed

text \<open>
  Claim C10 at a failing input: the viewer is at its initial scale 0.5, inside the
  interval, and two touch events follow, each with both of its touches at one point:
  first at (100, 100), then at (120, 130). The first stores the distance 0; the second
  divides 0 by 0, and the scale it sets is \<open>NaN\<close>, outside the interval.
\<close>

theorem pinch_zoom_not_a_number:
  "in_range (scale initial_view)
   \<and> scale (handleTouchZoom [(120, 130), (120, 130)]
              (handleTouchZoom [(100, 100), (100, 100)] initial_view)) = NaN
   \<and> \<not> in_range (scale (handleTouchZoom [(120, 130), (120, 130)]
                        (handleTouchZoom [(100, 100), (100, 100)] initial_view)))"
  by (simp add: handleTouchZoom_def initial_view_def Let_def)

end
